theory Spec2Isabelle
  imports Complex_Main
begin

section \<open>Data model\<close>

text \<open>
  Python floats are modelled as exact reals: rounding, infinities and NaN are outside the
  model. Python integers are \<open>int\<close>; counters that only ever count up from zero and loop
  indices of \<open>range\<close> are \<open>nat\<close>. Exceptions are values of the type \<open>error\<close>; a
  computation that may raise returns \<open>error + 'a\<close> with \<open>Inl\<close> for the exception.
\<close>

datatype error = TypeError | ValueError | ZeroDivisionError | FileNotFoundError

subsection \<open>utils/common.py: OnlineAvg\<close>

text \<open>The fields \<open>avg\<close> and \<open>n\<close> of the class carry the prefix \<open>oa_\<close> here.\<close>

record OnlineAvg =
  oa_avg :: real
  oa_n :: nat

definition OnlineAvg_init :: OnlineAvg where
  "OnlineAvg_init = \<lparr>oa_avg = 0, oa_n = 0\<rparr>"

text \<open>
  \<^verbatim>\<open>self.n += 1; self.avg = (self.avg * (self.n - 1) + new_x) / self.n\<close>.
  The divisor is at least 1, so the division never raises.
\<close>

definition OnlineAvg_update :: "OnlineAvg \<Rightarrow> real \<Rightarrow> OnlineAvg" where
  "OnlineAvg_update a new_x =
     (let n' = oa_n a + 1
      in \<lparr>oa_avg = (oa_avg a * (real n' - 1) + new_x) / real n', oa_n = n'\<rparr>)"

text \<open>Feeding a sequence of observations one at a time, and the averages read after each.\<close>

fun OnlineAvg_feed :: "OnlineAvg \<Rightarrow> real list \<Rightarrow> OnlineAvg" where
  "OnlineAvg_feed a [] = a"
| "OnlineAvg_feed a (x # xs) = OnlineAvg_feed (OnlineAvg_update a x) xs"

fun OnlineAvg_means :: "OnlineAvg \<Rightarrow> real list \<Rightarrow> real list" where
  "OnlineAvg_means a [] = []"
| "OnlineAvg_means a (x # xs) =
     oa_avg (OnlineAvg_update a x) # OnlineAvg_means (OnlineAvg_update a x) xs"

subsection \<open>utils/common.py: Stopper\<close>

record Stopper =
  n_observation :: int
  delta :: real
  cur_val :: "real option"
  value_max :: real
  num_fails :: int

text \<open>
  \<^verbatim>\<open>__init__\<close> stores its two arguments and the three initial values. It has no check and
  no \<^verbatim>\<open>raise\<close>, so the result is always \<open>Inr\<close>.
\<close>

definition Stopper_init :: "int \<Rightarrow> real \<Rightarrow> error + Stopper" where
  "Stopper_init n_obs d =
     Inr \<lparr>n_observation = n_obs, delta = d, cur_val = None, value_max = 0, num_fails = 0\<rparr>"

text \<open>
  The two private methods read \<^verbatim>\<open>self.cur_val\<close>; comparing or subtracting \<^verbatim>\<open>None\<close>
  raises \<^verbatim>\<open>TypeError\<close> in Python.
\<close>

definition update_max :: "Stopper \<Rightarrow> error + Stopper" where
  "update_max s =
     (case cur_val s of
        None \<Rightarrow> Inl TypeError
      | Some c \<Rightarrow> Inr (if value_max s < c then s\<lparr>value_max := c\<rparr> else s))"

definition count_fails :: "Stopper \<Rightarrow> error + Stopper" where
  "count_fails s =
     (case cur_val s of
        None \<Rightarrow> Inl TypeError
      | Some c \<Rightarrow>
          Inr (if value_max s - c \<ge> delta s
               then s\<lparr>num_fails := num_fails s + 1\<rparr>
               else s\<lparr>num_fails := 0\<rparr>))"

text \<open>\<^verbatim>\<open>update\<close>: store the value, then \<^verbatim>\<open>_update_max\<close>, then \<^verbatim>\<open>_count_fails\<close>.\<close>

definition update :: "Stopper \<Rightarrow> real \<Rightarrow> error + Stopper" where
  "update s v =
     (case update_max (s\<lparr>cur_val := Some v\<rparr>) of
        Inl e \<Rightarrow> Inl e
      | Inr s1 \<Rightarrow> count_fails s1)"

definition check_criterion :: "Stopper \<Rightarrow> bool" where
  "check_criterion s = (num_fails s = n_observation s)"

text \<open>
  Feeding a list of values one at a time and reading \<^verbatim>\<open>check_criterion\<close> after each
  \<^verbatim>\<open>update\<close>.
\<close>

fun stop_signals :: "Stopper \<Rightarrow> real list \<Rightarrow> error + bool list" where
  "stop_signals s [] = Inr []"
| "stop_signals s (v # vs) =
     (case update s v of
        Inl e \<Rightarrow> Inl e
      | Inr s' \<Rightarrow>
          (case stop_signals s' vs of
             Inl e \<Rightarrow> Inl e
           | Inr bs \<Rightarrow> Inr (check_criterion s' # bs)))"

text \<open>
  The order of the two steps that the specification describes, for comparison with
  \<open>update\<close>: the failure check first, against the maximum held before the call, and the
  maximum afterwards.
\<close>

definition update_check_first :: "Stopper \<Rightarrow> real \<Rightarrow> Stopper" where
  "update_check_first s v =
     (let s1 = (if value_max s - v \<ge> delta s
                then s\<lparr>cur_val := Some v, num_fails := num_fails s + 1\<rparr>
                else s\<lparr>cur_val := Some v, num_fails := 0\<rparr>)
      in s1\<lparr>value_max := max (value_max s) v\<rparr>)"

text \<open>Constructing a \<open>Stopper\<close> and feeding it a list of values.\<close>

definition Stopper_run :: "int \<Rightarrow> real \<Rightarrow> real list \<Rightarrow> error + bool list" where
  "Stopper_run n_obs d vs =
     (case Stopper_init n_obs d of Inl e \<Rightarrow> Inl e | Inr s \<Rightarrow> stop_signals s vs)"

subsection \<open>trainer.py: the collaborators of the Trainer\<close>

text \<open>
  The model parameters are an opaque type \<open>'p\<close>. A checkpoint file holds the parameters
  and the metadata \<^verbatim>\<open>{'acc': acc}\<close>. The two kinds of path that \<^verbatim>\<open>train\<close> writes are
  \<^verbatim>\<open>checkpoints/epoch{i}.pth.tar\<close> and \<^verbatim>\<open>checkpoints/best.pth.tar\<close>.
\<close>

datatype path = Epoch_path nat | Best_path

record 'p checkpoint =
  ck_params :: 'p
  ck_acc :: real

datatype transforms = Default_transforms | Test_transforms int

text \<open>
  The calls to the collaborators are logged in order: one training epoch, one evaluation
  pass (with the transform mode of the test set and the batch size of the loader), one
  checkpoint written, one checkpoint loaded.
\<close>

datatype event =
    Ev_train_epoch
  | Ev_test transforms int
  | Ev_save path real
  | Ev_load path

record 'p Trainer =
  model :: 'p
  batch_size :: int
  test_freq :: int
  files :: "path \<rightharpoonup> 'p checkpoint"
  events :: "event list"

text \<open>
  Modelled from the spec: \<^verbatim>\<open>Classifier.save\<close> and \<^verbatim>\<open>Classifier.load\<close> (models/meta.py is
  not among the sources). \<^verbatim>\<open>save(path, meta)\<close> bundles the current parameters with the
  metadata and overwrites the file in place; \<^verbatim>\<open>load(path)\<close> restores the parameters of the
  file, and fails when there is no such file.
\<close>

definition classifier_save :: "path \<Rightarrow> real \<Rightarrow> 'p Trainer \<Rightarrow> 'p Trainer" where
  "classifier_save p acc t =
     t\<lparr>files := (files t)(p \<mapsto> \<lparr>ck_params = model t, ck_acc = acc\<rparr>),
       events := events t @ [Ev_save p acc]\<rparr>"

definition classifier_load :: "path \<Rightarrow> 'p Trainer \<Rightarrow> error + 'p Trainer" where
  "classifier_load p t =
     (case files t p of
        None \<Rightarrow> Inl FileNotFoundError
      | Some c \<Rightarrow> Inr (t\<lparr>model := ck_params c, events := events t @ [Ev_load p]\<rparr>))"

text \<open>Python's \<^verbatim>\<open>int\<close> of a float truncates towards zero.\<close>

definition py_int :: "real \<Rightarrow> int" where
  "py_int r = (if 0 \<le> r then \<lfloor>r\<rfloor> else \<lceil>r\<rceil>)"

subsection \<open>trainer.py: Trainer.test, the batch size of the loader\<close>

text \<open>
  \<^verbatim>\<open>if n_tta != 0: batch_size = int(self.batch_size / n_tta) else: batch_size = self.batch_size\<close>.
  The division is Python's true division, of two integers, with a non-zero divisor.
\<close>

definition loader_batch_size :: "int \<Rightarrow> int \<Rightarrow> int" where
  "loader_batch_size bs n_tta =
     (if n_tta \<noteq> 0 then py_int (real_of_int bs / real_of_int n_tta) else bs)"

subsection \<open>trainer.py: Trainer.test, the result arrays\<close>

text \<open>
  The loader of \<^verbatim>\<open>torch.utils.data\<close>, without shuffling and without dropping the last
  batch, yields the samples in order, \<open>bs\<close> at a time, the last batch possibly shorter.
\<close>

function batches :: "nat \<Rightarrow> 'a list \<Rightarrow> 'a list list" where
  "batches bs xs = (if bs = 0 \<or> xs = [] then [] else take bs xs # batches bs (drop bs xs))"
  by pat_completeness auto
termination
  by (relation "measure (\<lambda>(bs, xs). length xs)") auto

declare batches.simps [simp del]

text \<open>
  A slice assignment \<^verbatim>\<open>a[i:j] = v\<close> of numpy on the first axis: the bounds are clipped to
  the array, a value of the slice's length replaces the slice, a value of length one is
  broadcast, any other length raises \<^verbatim>\<open>ValueError\<close>.
\<close>

definition slice_assign :: "'a list \<Rightarrow> nat \<Rightarrow> nat \<Rightarrow> 'a list \<Rightarrow> error + 'a list" where
  "slice_assign a i j v =
     (let i' = min i (length a);
          j' = max i' (min j (length a));
          k = j' - i'
      in if length v = k then Inr (take i' a @ v @ drop j' a)
         else if length v = 1 then Inr (take i' a @ replicate k (hd v) @ drop j' a)
         else Inl ValueError)"

text \<open>
  The three result arrays of \<^verbatim>\<open>test\<close>, each with one row per sample. The field \<open>slices\<close>
  is not in the source: it records the pairs \<^verbatim>\<open>(i_start, i_stop)\<close> of the loop, in order.
\<close>

record arrays =
  labels :: "int list"
  preds :: "int list"
  confs :: "real list"
  slices :: "(nat \<times> nat) list"

text \<open>
  \<^verbatim>\<open>i_start = i * loader.batch_size; i_stop = min(i_start + loader.batch_size, n_samples)\<close>
\<close>

definition batch_range :: "nat \<Rightarrow> nat \<Rightarrow> nat \<Rightarrow> nat \<times> nat" where
  "batch_range bs n_samples i = (i * bs, min (i * bs + bs) n_samples)"

text \<open>
  One pass of the loop body. A sample is a pair of an image and its label; \<open>classify\<close>
  stands for \<^verbatim>\<open>self.classifier.classify\<close> on the images of the batch and returns the
  predictions and the confidences.
\<close>

definition write_batch ::
  "('img list \<Rightarrow> int list \<times> real list) \<Rightarrow> nat \<Rightarrow> nat \<Rightarrow> nat \<Rightarrow> ('img \<times> int) list \<Rightarrow> arrays
     \<Rightarrow> error + arrays" where
  "write_batch classify bs n_samples i data a =
     (let label = map snd data;
          (pred, conf) = classify (map fst data);
          (i_start, i_stop) = batch_range bs n_samples i
      in case slice_assign (labels a) i_start i_stop label of
           Inl e \<Rightarrow> Inl e
         | Inr ls \<Rightarrow>
             (case slice_assign (preds a) i_start i_stop pred of
                Inl e \<Rightarrow> Inl e
              | Inr ps \<Rightarrow>
                  (case slice_assign (confs a) i_start i_stop conf of
                     Inl e \<Rightarrow> Inl e
                   | Inr cs \<Rightarrow>
                       Inr \<lparr>labels = ls, preds = ps, confs = cs,
                            slices = slices a @ [(i_start, i_stop)]\<rparr>)))"

fun test_loop ::
  "('img list \<Rightarrow> int list \<times> real list) \<Rightarrow> nat \<Rightarrow> nat \<Rightarrow> (nat \<times> ('img \<times> int) list) list \<Rightarrow> arrays
     \<Rightarrow> error + arrays" where
  "test_loop classify bs n_samples [] a = Inr a"
| "test_loop classify bs n_samples ((i, data) # rest) a =
     (case write_batch classify bs n_samples i data a of
        Inl e \<Rightarrow> Inl e
      | Inr a' \<Rightarrow> test_loop classify bs n_samples rest a')"

text \<open>
  The loader is built with the given batch size (a batch size that is not positive is
  refused by the loader with \<^verbatim>\<open>ValueError\<close>), the arrays are created with zeros, one row
  per sample, and the loop runs over the enumerated batches.
\<close>

definition test_arrays ::
  "('img list \<Rightarrow> int list \<times> real list) \<Rightarrow> int \<Rightarrow> ('img \<times> int) list \<Rightarrow> error + arrays" where
  "test_arrays classify batch_sz dataset =
     (if batch_sz \<le> 0 then Inl ValueError
      else
        let n_samples = length dataset
        in test_loop classify (nat batch_sz) n_samples
             (enumerate 0 (batches (nat batch_sz) dataset))
             \<lparr>labels = replicate n_samples 0, preds = replicate n_samples 0,
              confs = replicate n_samples 0, slices = []\<rparr>)"

subsection \<open>trainer.py: Trainer.train\<close>

text \<open>
  The training of one epoch and the accuracy that an evaluation pass measures are outside
  the sources: \<open>fit\<close> stands for the effect of \<^verbatim>\<open>train_epoch\<close> on the parameters and
  \<open>accuracy p n_tta\<close> for \<^verbatim>\<open>metrics['accuracy']\<close> of the parameters \<open>p\<close> evaluated with
  \<open>n_tta\<close> views. Both passes build a loader, which refuses a batch size that is not
  positive.
\<close>

definition train_epoch :: "('p \<Rightarrow> 'p) \<Rightarrow> 'p Trainer \<Rightarrow> error + 'p Trainer" where
  "train_epoch fit t =
     (if batch_size t \<le> 0 then Inl ValueError
      else Inr (t\<lparr>model := fit (model t), events := events t @ [Ev_train_epoch]\<rparr>))"

definition test :: "('p \<Rightarrow> int \<Rightarrow> real) \<Rightarrow> 'p Trainer \<Rightarrow> int \<Rightarrow> error + real \<times> 'p Trainer" where
  "test accuracy t n_tta =
     (let tf = (if n_tta \<noteq> 0 then Test_transforms n_tta else Default_transforms);
          bs = loader_batch_size (batch_size t) n_tta
      in if bs \<le> 0 then Inl ValueError
         else Inr (accuracy (model t) n_tta, t\<lparr>events := events t @ [Ev_test tf bs]\<rparr>))"

text \<open>
  The variables of the loop of \<^verbatim>\<open>train\<close>. The field \<open>stopped_at\<close> is not a variable of the
  source: it holds the epoch at which the loop was left by \<^verbatim>\<open>break\<close>, the one that the log
  line "Training stoped by criterion" reports.
\<close>

record 'p loop_state =
  trainer :: "'p Trainer"
  stopper :: Stopper
  acc_max :: real
  best_epoch :: nat
  stopped_at :: "nat option"

definition epoch_body ::
  "('p \<Rightarrow> 'p) \<Rightarrow> ('p \<Rightarrow> int \<Rightarrow> real) \<Rightarrow> nat \<Rightarrow> 'p loop_state \<Rightarrow> error + 'p loop_state" where
  "epoch_body fit accuracy i st =
     (case train_epoch fit (trainer st) of
        Inl e \<Rightarrow> Inl e
      | Inr t1 \<Rightarrow>
          if test_freq t1 = 0 then Inl ZeroDivisionError
          else if int i mod test_freq t1 = 0 then
            (case test accuracy t1 0 of
               Inl e \<Rightarrow> Inl e
             | Inr (acc, t2) \<Rightarrow>
                 let t3 = classifier_save (Epoch_path i) acc t2;
                     st1 = (if acc > acc_max st
                            then st\<lparr>trainer := classifier_save Best_path acc t3,
                                    acc_max := acc, best_epoch := i\<rparr>
                            else st\<lparr>trainer := t3\<rparr>)
                 in (case update (stopper st1) acc of
                       Inl e \<Rightarrow> Inl e
                     | Inr s' \<Rightarrow>
                         Inr (st1\<lparr>stopper := s',
                                  stopped_at := (if check_criterion s' then Some i else None)\<rparr>)))
          else Inr (st\<lparr>trainer := t1\<rparr>))"

text \<open>The loop over \<^verbatim>\<open>range(n_max_epoch)\<close>, left early when the criterion holds.\<close>

fun train_loop ::
  "('p \<Rightarrow> 'p) \<Rightarrow> ('p \<Rightarrow> int \<Rightarrow> real) \<Rightarrow> nat list \<Rightarrow> 'p loop_state \<Rightarrow> error + 'p loop_state" where
  "train_loop fit accuracy [] st = Inr st"
| "train_loop fit accuracy (i # rest) st =
     (case epoch_body fit accuracy i st of
        Inl e \<Rightarrow> Inl e
      | Inr st' \<Rightarrow>
          if stopped_at st' \<noteq> None then Inr st' else train_loop fit accuracy rest st')"

definition train_init :: "'p Trainer \<Rightarrow> Stopper \<Rightarrow> 'p loop_state" where
  "train_init t s =
     \<lparr>trainer = t, stopper = s, acc_max = 0, best_epoch = 0, stopped_at = None\<rparr>"

text \<open>
  After the loop: load the best checkpoint, evaluate once with \<open>n_tta\<close>, return the larger
  of the two accuracies. The final state is returned beside the value.
\<close>

definition finalize ::
  "('p \<Rightarrow> int \<Rightarrow> real) \<Rightarrow> int \<Rightarrow> 'p loop_state \<Rightarrow> error + real \<times> 'p loop_state" where
  "finalize accuracy n_tta st =
     (case classifier_load Best_path (trainer st) of
        Inl e \<Rightarrow> Inl e
      | Inr t1 \<Rightarrow>
          (case test accuracy t1 n_tta of
             Inl e \<Rightarrow> Inl e
           | Inr (acc_tta, t2) \<Rightarrow> Inr (max (acc_max st) acc_tta, st\<lparr>trainer := t2\<rparr>)))"

definition train ::
  "('p \<Rightarrow> 'p) \<Rightarrow> ('p \<Rightarrow> int \<Rightarrow> real) \<Rightarrow> 'p Trainer \<Rightarrow> int \<Rightarrow> int \<Rightarrow> Stopper
     \<Rightarrow> error + real \<times> 'p loop_state" where
  "train fit accuracy t n_max_epoch n_tta s =
     (case train_loop fit accuracy [0..<nat n_max_epoch] (train_init t s) of
        Inl e \<Rightarrow> Inl e
      | Inr st \<Rightarrow> finalize accuracy n_tta st)"

subsection \<open>The evaluated metrics, read off the log\<close>

text \<open>
  Every evaluated epoch writes exactly one per-epoch checkpoint, tagged with the metric of
  that epoch. \<open>epoch_accs\<close> lists these metrics in the order of the log.
\<close>

fun epoch_accs :: "event list \<Rightarrow> real list" where
  "epoch_accs [] = []"
| "epoch_accs (Ev_save (Epoch_path i) a # es) = a # epoch_accs es"
| "epoch_accs (e # es) = epoch_accs es"

text \<open>
  The invariant of the loop of \<^verbatim>\<open>train\<close>: \<^verbatim>\<open>acc_max\<close> is the largest metric evaluated so
  far, or 0 when none exceeds 0, and once it is positive the best checkpoint exists and
  stores it.
\<close>

definition best_inv :: "'p loop_state \<Rightarrow> bool" where
  "best_inv st =
     (acc_max st = Max (insert 0 (set (epoch_accs (events (trainer st))))) \<and>
      (0 < acc_max st \<longrightarrow>
         (\<exists>c. files (trainer st) Best_path = Some c \<and> ck_acc c = acc_max st)))"

subsection \<open>Inputs of the worked scenarios\<close>

text \<open>
  In the scenarios the model parameters are the number of training epochs done, so that
  \<open>fit\<close> is \<open>Suc\<close>. \<open>scenario_acc tta\<close> is the accuracy measured on the parameters after
  the first to fifth epoch (0.60, 0.62, 0.61, 0.60, 0.59) without augmentation, and \<open>tta\<close>
  with augmentation. \<open>fresh_trainer\<close> is a \<open>Trainer\<close> in an empty working directory, and
  \<open>new_stopper\<close> the object that \<open>Stopper_init\<close> returns.
\<close>

definition scenario_acc :: "real \<Rightarrow> nat \<Rightarrow> int \<Rightarrow> real" where
  "scenario_acc tta p n_tta =
     (if n_tta \<noteq> 0 then tta
      else if p = 1 then 60/100
      else if p = 2 then 62/100
      else if p = 3 then 61/100
      else if p = 4 then 60/100
      else if p = 5 then 59/100
      else 0)"

definition fresh_trainer :: "int \<Rightarrow> int \<Rightarrow> nat Trainer" where
  "fresh_trainer bs tf =
     \<lparr>model = 0, batch_size = bs, test_freq = tf, files = Map.empty, events = []\<rparr>"

definition new_stopper :: "int \<Rightarrow> real \<Rightarrow> Stopper" where
  "new_stopper n_obs d =
     \<lparr>n_observation = n_obs, delta = d, cur_val = None, value_max = 0, num_fails = 0\<rparr>"

section \<open>Stopper: the closed form of one update\<close>

lemma update_Inr:
  "update s v =
     Inr (s\<lparr>cur_val := Some v,
            value_max := max (value_max s) v,
            num_fails := (if max (value_max s) v - v \<ge> delta s then num_fails s + 1 else 0)\<rparr>)"
  by (simp add: update_def update_max_def count_fails_def max_def)

section \<open>OnlineAvg: the running mean\<close>

lemma OnlineAvg_update_sum:
  "oa_n (OnlineAvg_update a x) = oa_n a + 1 \<and>
   oa_avg (OnlineAvg_update a x) * real (oa_n (OnlineAvg_update a x)) =
     oa_avg a * real (oa_n a) + x"
  by (simp add: OnlineAvg_update_def Let_def)

lemma OnlineAvg_feed_sum:
  "oa_n (OnlineAvg_feed a xs) = oa_n a + length xs \<and>
   oa_avg (OnlineAvg_feed a xs) * real (oa_n (OnlineAvg_feed a xs)) =
     oa_avg a * real (oa_n a) + sum_list xs"
proof (induction xs arbitrary: a)
  case Nil
  show ?case by simp
next
  case (Cons x xs)
  let ?b = "OnlineAvg_update a x"
  let ?c = "OnlineAvg_feed ?b xs"
  from Cons.IH [of ?b]
  have n: "oa_n ?c = oa_n ?b + length xs"
    and s: "oa_avg ?c * real (oa_n ?c) = oa_avg ?b * real (oa_n ?b) + sum_list xs"
    by blast+
  from OnlineAvg_update_sum [of a x]
  have nb: "oa_n ?b = oa_n a + 1"
    and sb: "oa_avg ?b * real (oa_n ?b) = oa_avg a * real (oa_n a) + x"
    by blast+
  have "oa_n ?c = oa_n a + length (x # xs)"
    using n nb by simp
  moreover have "oa_avg ?c * real (oa_n ?c) = oa_avg a * real (oa_n a) + sum_list (x # xs)"
    unfolding s sb by simp
  ultimately show ?case by simp
qed

text \<open>
  Claim C7. After feeding any non-empty sequence of observations to a fresh \<open>OnlineAvg\<close>,
  the stored average is the sum of the observations divided by their number, and the
  counter is their number; feeding 2, 4, 6 gives the averages 2, 3, 4 in turn. (Every
  prefix of a sequence is itself a sequence, so this covers the average after each
  observation. The arithmetic is exact, on reals.)
\<close>

theorem OnlineAvg_mean:
  "oa_avg (OnlineAvg_feed OnlineAvg_init (x # xs)) = sum_list (x # xs) / real (length (x # xs)) \<and>
   oa_n (OnlineAvg_feed OnlineAvg_init (x # xs)) = length (x # xs) \<and>
   OnlineAvg_means OnlineAvg_init [2, 4, 6] = [2, 3, 4]"
proof -
  let ?a = "OnlineAvg_feed OnlineAvg_init (x # xs)"
  from OnlineAvg_feed_sum [of OnlineAvg_init "x # xs"]
  have n: "oa_n ?a = oa_n OnlineAvg_init + length (x # xs)"
    and s: "oa_avg ?a * real (oa_n ?a) =
              oa_avg OnlineAvg_init * real (oa_n OnlineAvg_init) + sum_list (x # xs)"
    by blast+
  have n': "oa_n ?a = length (x # xs)"
    using n by (simp add: OnlineAvg_init_def)
  have s': "oa_avg ?a * real (length (x # xs)) = sum_list (x # xs)"
    using s unfolding n' by (simp add: OnlineAvg_init_def)
  have pos: "real (length (x # xs)) \<noteq> 0" by simp
  have m: "oa_avg ?a = sum_list (x # xs) / real (length (x # xs))"
    using s' pos by (metis nonzero_mult_div_cancel_right)
  have e: "OnlineAvg_means OnlineAvg_init [2, 4, 6] = [2, 3, 4]"
    by (simp add: OnlineAvg_init_def OnlineAvg_update_def Let_def)
  from m n' e show ?thesis by blast
qed

section \<open>Stopper: counting failures\<close>

text \<open>
  Claim C3. A \<open>Stopper\<close> built with threshold 3 and delta 0.01 and fed 0.50, 0.51, 0.50,
  0.49, 0.48 answers \<open>check_criterion\<close> with false, false, false, false, true. An
  observation equal to the held maximum minus delta always raises the failure count by
  one: the comparison is \<open>\<ge>\<close>, so the boundary counts as a failure.
\<close>

theorem Stopper_sequence_inclusive:
  "Stopper_run 3 (1/100) [50/100, 51/100, 50/100, 49/100, 48/100]
     = Inr [False, False, False, False, True] \<and>
   map_sum id num_fails (update s (value_max s - delta s)) = Inr (num_fails s + 1)"
  by (simp add: Stopper_run_def Stopper_init_def update_Inr check_criterion_def max_def)

text \<open>
  Claim C10. The stop signal is not latched. If \<open>check_criterion\<close> holds (the failure count
  equals the threshold) and one more observation is fed whose distance below the maximum
  held before the update is at least delta, then the update succeeds, the failure count
  becomes the threshold plus one, and \<open>check_criterion\<close> is false again.
\<close>

theorem Stopper_not_latched:
  "check_criterion s \<Longrightarrow> value_max s - v \<ge> delta s \<Longrightarrow>
   \<exists>s'. update s v = Inr s' \<and> num_fails s' = n_observation s + 1 \<and> \<not> check_criterion s'"
  by (simp add: update_Inr check_criterion_def max_def)

theorem Stopper_not_latched_witness:
  "check_criterion \<lparr>n_observation = 3, delta = 1/100, cur_val = Some (48/100),
                    value_max = 51/100, num_fails = 3\<rparr> \<and>
   value_max \<lparr>n_observation = 3, delta = 1/100, cur_val = Some (48/100),
              value_max = 51/100, num_fails = 3\<rparr> - 47/100
     \<ge> delta \<lparr>n_observation = 3, delta = 1/100, cur_val = Some (48/100),
               value_max = 51/100, num_fails = 3\<rparr> \<and>
   (\<exists>s'. update \<lparr>n_observation = 3, delta = 1/100, cur_val = Some (48/100),
                  value_max = 51/100, num_fails = 3\<rparr> (47/100) = Inr s' \<and>
         num_fails s' = 4 \<and> \<not> check_criterion s')"
  using Stopper_not_latched [of "\<lparr>n_observation = 3, delta = 1/100, cur_val = Some (48/100),
                    value_max = 51/100, num_fails = 3\<rparr>" "47/100"]
  by (simp add: check_criterion_def)

text \<open>
  With a positive delta the order of the two steps of \<open>update\<close> cannot be observed: the
  state is the one that a failure check against the maximum held before the update,
  followed by raising the maximum, gives. An observation that strictly exceeds the
  previous maximum then resets the failure count to 0.
\<close>

theorem update_positive_delta:
  "0 < delta s \<Longrightarrow>
   update s v = Inr (update_check_first s v) \<and>
   (value_max s < v \<longrightarrow> num_fails (update_check_first s v) = 0)"
  by (simp add: update_Inr update_check_first_def max_def Let_def)

theorem update_positive_delta_witness:
  "0 < delta \<lparr>n_observation = 3, delta = 1/100, cur_val = Some (49/100),
              value_max = 50/100, num_fails = 2\<rparr> \<and>
   value_max \<lparr>n_observation = 3, delta = 1/100, cur_val = Some (49/100),
              value_max = 50/100, num_fails = 2\<rparr> < 51/100 \<and>
   update \<lparr>n_observation = 3, delta = 1/100, cur_val = Some (49/100),
           value_max = 50/100, num_fails = 2\<rparr> (51/100)
     = Inr \<lparr>n_observation = 3, delta = 1/100, cur_val = Some (51/100),
            value_max = 51/100, num_fails = 0\<rparr>"
  using update_positive_delta [of "\<lparr>n_observation = 3, delta = 1/100, cur_val = Some (49/100),
              value_max = 50/100, num_fails = 2\<rparr>" "51/100"]
  by (simp add: update_check_first_def)

text \<open>
  Claim C2, evaluated on the code with delta 0. \<open>update\<close> raises the maximum before it
  counts, so the check runs against the raised maximum. A fresh \<open>Stopper\<close> with threshold
  3 and delta 0, fed 0.60, which strictly exceeds the previous maximum 0, has failure count
  1 afterwards: the observation that sets the new maximum is counted as a failure, and the
  state differs from the one that a check against the previous maximum gives.
\<close>

theorem update_zero_delta_counts_new_best:
  "0 \<le> delta \<lparr>n_observation = 3, delta = 0, cur_val = None, value_max = 0, num_fails = 0\<rparr> \<and>
   value_max \<lparr>n_observation = 3, delta = 0, cur_val = None, value_max = 0, num_fails = 0\<rparr>
     < 60/100 \<and>
   Stopper_init 3 0
     = Inr \<lparr>n_observation = 3, delta = 0, cur_val = None, value_max = 0, num_fails = 0\<rparr> \<and>
   update \<lparr>n_observation = 3, delta = 0, cur_val = None, value_max = 0, num_fails = 0\<rparr> (60/100)
     = Inr \<lparr>n_observation = 3, delta = 0, cur_val = Some (60/100), value_max = 60/100,
            num_fails = 1\<rparr> \<and>
   update \<lparr>n_observation = 3, delta = 0, cur_val = None, value_max = 0, num_fails = 0\<rparr> (60/100)
     \<noteq> Inr (update_check_first
              \<lparr>n_observation = 3, delta = 0, cur_val = None, value_max = 0, num_fails = 0\<rparr>
              (60/100))"
  by (simp add: Stopper_init_def update_Inr update_check_first_def)



section \<open>Trainer.test: the batch size of the loader\<close>

lemma py_int_nonneg_div:
  "0 \<le> a \<Longrightarrow> 0 < b \<Longrightarrow> py_int (real_of_int a / real_of_int b) = a div b"
  by (simp add: py_int_def floor_divide_of_int_eq)

lemma exact_quotient_iff:
  fixes a b :: int
  assumes "b \<noteq> 0"
  shows "(real_of_int (a div b) = real_of_int a / real_of_int b) = (b dvd a)"
proof
  assume "real_of_int (a div b) = real_of_int a / real_of_int b"
  with assms have "real_of_int (a div b * b) = real_of_int a"
    by (simp add: field_simps)
  then have "a div b * b = a" by (simp only: of_int_eq_iff)
  then show "b dvd a" by (metis dvd_triv_right)
next
  assume "b dvd a"
  then show "real_of_int (a div b) = real_of_int a / real_of_int b"
    by (simp add: real_of_int_div)
qed

text \<open>
  Claim C9, as amended. For a positive configured batch size and a positive \<open>n_tta\<close>, the
  batch size of the loader is the configured batch size divided by \<open>n_tta\<close> and rounded
  down to an integer; the views of one batch never exceed the configured batch size; and
  the loader's batch size is the exact quotient precisely when \<open>n_tta\<close> divides the
  configured batch size.
\<close>

theorem loader_batch_size_floor:
  "0 < bs \<Longrightarrow> 0 < n_tta \<Longrightarrow>
   loader_batch_size bs n_tta = bs div n_tta \<and>
   loader_batch_size bs n_tta * n_tta \<le> bs \<and>
   (real_of_int (loader_batch_size bs n_tta) = real_of_int bs / real_of_int n_tta)
     = (n_tta dvd bs)"
proof -
  assume bs: "0 < bs" and n: "0 < n_tta"
  have e: "loader_batch_size bs n_tta = bs div n_tta"
    using bs n by (simp add: loader_batch_size_def py_int_nonneg_div)
  have "bs div n_tta * n_tta \<le> bs"
    using n by (metis mult.commute  pos_mod_sign add.commute  add_increasing2 mult_div_mod_eq order_refl)
  with e exact_quotient_iff [of n_tta bs] n show ?thesis by simp
qed

theorem loader_batch_size_floor_witness:
  "(0::int) < 256 \<and> (0::int) < 8 \<and> loader_batch_size 256 8 = 32 \<and>
   loader_batch_size 256 8 * 8 \<le> 256 \<and>
   real_of_int (loader_batch_size 256 8) = real_of_int 256 / real_of_int 8"
  using loader_batch_size_floor [of 256 8] by simp

text \<open>
  Claim C9 as stated fails where the batch size is not a multiple of \<open>n_tta\<close>: with batch
  size 256 and \<open>n_tta = 3\<close> the loader's batch size is 85, which is not 256 divided by 3.
\<close>

theorem loader_batch_size_counterexample:
  "(0::int) < 256 \<and> (0::int) < 3 \<and> loader_batch_size 256 3 = 85 \<and>
   real_of_int (loader_batch_size 256 3) \<noteq> real_of_int 256 / real_of_int 3"
  by (simp add: loader_batch_size_def py_int_def)

section \<open>Trainer.test: the offsets of the result arrays\<close>

lemma batches_Nil: "batches bs [] = []"
  by (simp add: batches.simps)

lemma batches_step:
  "0 < bs \<Longrightarrow> xs \<noteq> [] \<Longrightarrow> batches bs xs = take bs xs # batches bs (drop bs xs)"
  by (subst batches.simps) simp

lemma concat_batches: "0 < bs \<Longrightarrow> concat (batches bs xs) = xs"
proof (induction bs xs rule: batches.induct)
  case (1 bs xs)
  show ?case
  proof (cases "xs = []")
    case True
    then show ?thesis by (simp add: batches_Nil)
  next
    case False
    with 1 show ?thesis by (simp add: batches_step)
  qed
qed

lemma slice_assign_exact:
  "i \<le> j \<Longrightarrow> j \<le> length a \<Longrightarrow> length v = j - i \<Longrightarrow>
   slice_assign a i j v = Inr (take i a @ v @ drop j a)"
  by (simp add: slice_assign_def Let_def min_def max_def)

lemma batches_bounds:
  "0 < bs \<Longrightarrow>
   length xs \<le> length (batches bs xs) * bs \<and> length (batches bs xs) * bs < length xs + bs"
proof (induction bs xs rule: batches.induct)
  case (1 bs xs)
  show ?case
  proof (cases "xs = []")
    case True
    with 1(2) show ?thesis by (simp add: batches_Nil)
  next
    case False
    let ?m = "length (batches bs (drop bs xs)) * bs"
    from 1 False
    have IH: "length xs - bs \<le> ?m \<and> ?m < length xs - bs + bs"
      by simp
    have len: "length (batches bs xs) * bs = bs + ?m"
      using False 1(2) by (simp add: batches_step)
    from False have pos: "0 < length xs" by simp
    show ?thesis
    proof (cases "bs \<le> length xs")
      case True
      then show ?thesis unfolding len using IH 1(2) by arith
    next
      case False
      then have "drop bs xs = []" by simp
      then have "?m = 0" by (simp add: batches_Nil)
      then show ?thesis unfolding len using False pos by arith
    qed
  qed
qed

lemma write_batch_exact:
  assumes cl: "length (fst (classify (map fst data))) = length data"
              "length (snd (classify (map fst data))) = length data"
    and ln: "length (labels a) = n" "length (preds a) = n" "length (confs a) = n"
    and k: "k * bs + length data = min (k * bs + bs) n"
  shows "write_batch classify bs n k data a =
           Inr \<lparr>labels = take (k * bs) (labels a) @ map snd data
                          @ drop (min (k * bs + bs) n) (labels a),
                preds = take (k * bs) (preds a) @ fst (classify (map fst data))
                          @ drop (min (k * bs + bs) n) (preds a),
                confs = take (k * bs) (confs a) @ snd (classify (map fst data))
                          @ drop (min (k * bs + bs) n) (confs a),
                slices = slices a @ [batch_range bs n k]\<rparr>"
proof -
  let ?i = "k * bs" and ?j = "min (k * bs + bs) n"
  from k have ij: "?i \<le> ?j" and d: "length data = ?j - ?i" by linarith+
  have jn: "?j \<le> n" by simp
  have l: "slice_assign (labels a) ?i ?j (map snd data)
             = Inr (take ?i (labels a) @ map snd data @ drop ?j (labels a))"
    using ij jn d ln(1) by (intro slice_assign_exact) simp_all
  have p: "slice_assign (preds a) ?i ?j (fst (classify (map fst data)))
             = Inr (take ?i (preds a) @ fst (classify (map fst data)) @ drop ?j (preds a))"
    using ij jn d ln(2) cl(1) by (intro slice_assign_exact) simp_all
  have c: "slice_assign (confs a) ?i ?j (snd (classify (map fst data)))
             = Inr (take ?i (confs a) @ snd (classify (map fst data)) @ drop ?j (confs a))"
    using ij jn d ln(3) cl(2) by (intro slice_assign_exact) simp_all
  show ?thesis
    unfolding write_batch_def batch_range_def Let_def
    by (simp only: split_def fst_conv snd_conv l p c sum.case)
qed

lemma test_loop_exact:
  assumes bs: "0 < bs"
    and cl: "\<forall>ims. length (fst (classify ims)) = length ims \<and>
                   length (snd (classify ims)) = length ims"
  shows "length (labels a) = n \<Longrightarrow> length (preds a) = n \<Longrightarrow> length (confs a) = n \<Longrightarrow>
         length ys \<le> n \<Longrightarrow> (ys \<noteq> [] \<longrightarrow> k * bs = n - length ys) \<Longrightarrow>
         test_loop classify bs n (enumerate k (batches bs ys)) a =
           Inr \<lparr>labels = take (n - length ys) (labels a) @ map snd ys,
                preds = take (n - length ys) (preds a)
                          @ concat (map (\<lambda>b. fst (classify (map fst b))) (batches bs ys)),
                confs = take (n - length ys) (confs a)
                          @ concat (map (\<lambda>b. snd (classify (map fst b))) (batches bs ys)),
                slices = slices a
                          @ map (batch_range bs n) [k..<k + length (batches bs ys)]\<rparr>"
  using bs
proof (induction bs ys arbitrary: k a rule: batches.induct)
  case (1 bs ys)
  show ?case
  proof (cases "ys = []")
    case True
    with 1(2-4) show ?thesis by (simp add: batches_Nil)
  next
    case False
    let ?d = "take bs ys"
    let ?i = "k * bs" and ?j = "min (k * bs + bs) n"
    from False 1(6) have kb: "k * bs = n - length ys" by simp
    from False have pos: "0 < length ys" by simp
    have kd: "?i + length ?d = ?j"
      unfolding kb using 1(5) pos by (simp add: min_def) arith
    let ?a' = "\<lparr>labels = take ?i (labels a) @ map snd ?d @ drop ?j (labels a),
                preds = take ?i (preds a) @ fst (classify (map fst ?d)) @ drop ?j (preds a),
                confs = take ?i (confs a) @ snd (classify (map fst ?d)) @ drop ?j (confs a),
                slices = slices a @ [batch_range bs n k]\<rparr>"
    have wb: "write_batch classify bs n k ?d a = Inr ?a'"
      using cl 1(2-4) kd by (intro write_batch_exact) simp_all
    have jn: "?j \<le> n" by simp
    have ij: "?i \<le> ?j" using kd by linarith
    have la: "length (labels ?a') = n" "length (preds ?a') = n" "length (confs ?a') = n"
      using 1(2-4) cl kd jn ij by simp_all
    have ly: "length (drop bs ys) \<le> n" using 1(5) by simp
    have nk: "drop bs ys \<noteq> [] \<longrightarrow> Suc k * bs = n - length (drop bs ys)"
      using kb 1(5) by auto
    have j: "n - length (drop bs ys) = ?j"
      unfolding kb using 1(5) pos by (simp add: min_def)
    have ne: "\<not> (bs = 0 \<or> ys = [])" using False 1(7) by simp
    note IH = 1(1) [OF ne la ly nk 1(7)]
    have tl: "take ?j (labels ?a') = take ?i (labels a) @ map snd ?d"
      using 1(2) kd ij jn by simp
    have tp: "take ?j (preds ?a') = take ?i (preds a) @ fst (classify (map fst ?d))"
      using 1(3) kd ij jn cl by simp
    have tc: "take ?j (confs ?a') = take ?i (confs a) @ snd (classify (map fst ?d))"
      using 1(4) kd ij jn cl by simp
    have rec: "test_loop classify bs n (enumerate (Suc k) (batches bs (drop bs ys))) ?a' =
        Inr \<lparr>labels = (take ?i (labels a) @ map snd ?d) @ map snd (drop bs ys),
             preds = (take ?i (preds a) @ fst (classify (map fst ?d)))
                       @ concat (map (\<lambda>b. fst (classify (map fst b))) (batches bs (drop bs ys))),
             confs = (take ?i (confs a) @ snd (classify (map fst ?d)))
                       @ concat (map (\<lambda>b. snd (classify (map fst b))) (batches bs (drop bs ys))),
             slices = (slices a @ [batch_range bs n k])
                       @ map (batch_range bs n)
                           [Suc k..<Suc k + length (batches bs (drop bs ys))]\<rparr>"
      using IH unfolding j tl tp tc by (simp only: arrays.select_convs)
    have bt: "batches bs ys = ?d # batches bs (drop bs ys)"
      using False 1(7) by (simp add: batches_step)
    have L: "(take ?i (labels a) @ map snd ?d) @ map snd (drop bs ys)
               = take (n - length ys) (labels a) @ map snd ys"
      unfolding kb by (simp add: take_map [symmetric] drop_map [symmetric])
    have P: "(take ?i (preds a) @ fst (classify (map fst ?d)))
               @ concat (map (\<lambda>b. fst (classify (map fst b))) (batches bs (drop bs ys)))
             = take (n - length ys) (preds a)
               @ concat (map (\<lambda>b. fst (classify (map fst b))) (batches bs ys))"
      unfolding kb bt by simp
    have C: "(take ?i (confs a) @ snd (classify (map fst ?d)))
               @ concat (map (\<lambda>b. snd (classify (map fst b))) (batches bs (drop bs ys)))
             = take (n - length ys) (confs a)
               @ concat (map (\<lambda>b. snd (classify (map fst b))) (batches bs ys))"
      unfolding kb bt by simp
    have up: "[k..<k + length (batches bs ys)]
                = k # [Suc k..<Suc k + length (batches bs (drop bs ys))]"
      unfolding bt by (simp add: upt_conv_Cons del: upt_Suc)
    have S: "(slices a @ [batch_range bs n k])
               @ map (batch_range bs n) [Suc k..<Suc k + length (batches bs (drop bs ys))]
             = slices a @ map (batch_range bs n) [k..<k + length (batches bs ys)]"
      unfolding up by simp
    have en: "enumerate k (batches bs ys)
                = (k, ?d) # enumerate (Suc k) (batches bs (drop bs ys))"
      unfolding bt by simp
    show ?thesis
      unfolding en
      by (simp only: test_loop.simps wb sum.case rec L P C S)
  qed
qed

lemma batch_range_inside:
  assumes bs: "0 < bs" and i: "i < length (batches bs ds)"
  shows "i * bs < length ds"
proof -
  from batches_bounds [OF bs, of ds]
  have ub: "length (batches bs ds) * bs < length ds + bs" by simp
  from i have "Suc i \<le> length (batches bs ds)" by simp
  then have "Suc i * bs \<le> length (batches bs ds) * bs" by (rule mult_le_mono1)
  with ub show ?thesis by simp
qed

lemma slices_cover:
  assumes bs: "0 < bs"
  shows "(\<Union>(i, j) \<in> set (map (batch_range bs (length ds)) [0..<length (batches bs ds)]). {i..<j})
           = {0..<length ds}"
proof
  show "(\<Union>(i, j) \<in> set (map (batch_range bs (length ds)) [0..<length (batches bs ds)]). {i..<j})
           \<subseteq> {0..<length ds}"
    by (auto simp: batch_range_def)
next
  show "{0..<length ds}
          \<subseteq> (\<Union>(i, j) \<in> set (map (batch_range bs (length ds)) [0..<length (batches bs ds)]). {i..<j})"
  proof
    fix x assume "x \<in> {0..<length ds}"
    then have x: "x < length ds" by simp
    let ?i = "x div bs"
    have lo: "?i * bs \<le> x" by simp
    have hi: "x < ?i * bs + bs" using bs
      by (metis add.commute dividend_less_div_times mult.commute)
    from batches_bounds [OF bs, of ds] have "length ds \<le> length (batches bs ds) * bs" by simp
    with lo x have "?i * bs < length (batches bs ds) * bs" by linarith
    then have i: "?i < length (batches bs ds)" by simp
    have "x \<in> {fst (batch_range bs (length ds) ?i)..<snd (batch_range bs (length ds) ?i)}"
      using lo hi x by (simp add: batch_range_def)
    with i show "x \<in> (\<Union>(i, j) \<in> set (map (batch_range bs (length ds))
                                       [0..<length (batches bs ds)]). {i..<j})"
      by (force simp: split_def)
  qed
qed

lemma slices_contiguous:
  assumes bs: "0 < bs" and i: "Suc i < length (batches bs ds)"
  shows "snd (batch_range bs (length ds) i) = fst (batch_range bs (length ds) (Suc i))"
  using batch_range_inside [OF bs i] by (simp add: batch_range_def min_def)

lemma batches_257:
  assumes "length ds = 257"
  shows "length (batches 256 ds) = 2"
proof -
  from batches_bounds [of 256 ds] assms
  have "257 \<le> length (batches 256 ds) * 256 \<and> length (batches 256 ds) * 256 < 513"
    by simp
  then show ?thesis by arith
qed

lemma test_arrays_result:
  assumes bs: "0 < bs"
    and cl: "\<forall>ims. length (fst (classify ims)) = length ims \<and>
                   length (snd (classify ims)) = length ims"
  shows "test_arrays classify bs ds =
           Inr \<lparr>labels = map snd ds,
                preds = concat (map (\<lambda>b. fst (classify (map fst b))) (batches (nat bs) ds)),
                confs = concat (map (\<lambda>b. snd (classify (map fst b))) (batches (nat bs) ds)),
                slices = map (batch_range (nat bs) (length ds))
                           [0..<length (batches (nat bs) ds)]\<rparr>"
proof -
  from bs have b: "0 < nat bs" by simp
  let ?z = "\<lparr>labels = replicate (length ds) 0, preds = replicate (length ds) 0,
             confs = replicate (length ds) 0, slices = []\<rparr>"
  have "test_loop classify (nat bs) (length ds) (enumerate 0 (batches (nat bs) ds)) ?z =
          Inr \<lparr>labels = take (length ds - length ds) (labels ?z) @ map snd ds,
               preds = take (length ds - length ds) (preds ?z)
                         @ concat (map (\<lambda>b. fst (classify (map fst b))) (batches (nat bs) ds)),
               confs = take (length ds - length ds) (confs ?z)
                         @ concat (map (\<lambda>b. snd (classify (map fst b))) (batches (nat bs) ds)),
               slices = slices ?z
                         @ map (batch_range (nat bs) (length ds))
                             [0..<0 + length (batches (nat bs) ds)]\<rparr>"
    by (rule test_loop_exact [OF b cl]) simp_all
  then show ?thesis
    using bs by (simp add: test_arrays_def Let_def)
qed

lemma length_concat_classify:
  assumes bs: "0 < bs"
  shows "(\<forall>ims. length (f ims) = length ims) \<Longrightarrow>
         length (concat (map (\<lambda>b. f (map fst b)) (batches bs ds))) = length ds"
  using bs
proof (induction bs ds rule: batches.induct)
  case (1 bs xs)
  show ?case
  proof (cases "xs = []")
    case True
    then show ?thesis by (simp add: batches_Nil)
  next
    case False
    with 1 show ?thesis by (simp add: batches_step)
  qed
qed

lemma concat_map_batches:
  "0 < bs \<Longrightarrow> concat (map (map f) (batches bs ds)) = map f ds"
  by (simp add: map_concat [symmetric] concat_batches)

lemma concat_batches_segment:
  assumes bs: "0 < bs" and g: "\<forall>b. length (g b) = length b"
  shows "i < length (batches bs ds) \<Longrightarrow>
         take (min (i * bs + bs) (length ds) - i * bs)
              (drop (i * bs) (concat (map g (batches bs ds))))
           = g (batches bs ds ! i)"
proof (induction i arbitrary: ds)
  case 0
  then have ne: "ds \<noteq> []" by (auto simp: batches_Nil)
  have lg: "length (g (take bs ds)) = min (length ds) bs" using g by simp
  show ?case
    using lg by (simp add: batches_step [OF bs ne] min.commute)
next
  case (Suc j)
  then have ne: "ds \<noteq> []" by (auto simp: batches_Nil)
  let ?R = "batches bs (drop bs ds)"
  have bt: "batches bs ds = take bs ds # ?R" by (rule batches_step [OF bs ne])
  from Suc.prems have j: "j < length ?R" unfolding bt by simp
  then have "drop bs ds \<noteq> []" by (auto simp: batches_Nil)
  then have big: "bs < length ds" by simp
  have lg: "length (g (take bs ds)) = bs" using g big by simp
  have dr: "drop (Suc j * bs) (g (take bs ds) @ concat (map g ?R))
              = drop (j * bs) (concat (map g ?R))"
    using lg by simp
  have ar: "min (Suc j * bs + bs) (length ds) - Suc j * bs
              = min (j * bs + bs) (length (drop bs ds)) - j * bs"
    using big by (simp add: min_def) arith
  from Suc.IH [OF j]
  have "take (min (j * bs + bs) (length (drop bs ds)) - j * bs)
             (drop (j * bs) (concat (map g ?R))) = g (?R ! j)" .
  then show ?case
    unfolding bt ar [symmetric] using dr by simp
qed

text \<open>
  Claim C8. For every positive batch size of the loader and every evaluation set, with a
  classifier that returns one prediction and one confidence per image, the loop of \<open>test\<close>
  ends without an error and batch \<open>i\<close> is written to the slice from \<open>i * batch_size\<close> to
  \<open>min (i * batch_size + batch_size) n_samples\<close>: after the loop that slice of the label
  array holds the labels of batch \<open>i\<close>, and that slice of the prediction and confidence
  arrays holds what the classifier returned for the images of batch \<open>i\<close>. Every slice is
  non-empty and ends within the arrays, each slice starts where the one before ends, and
  together the slices are exactly the indices below \<open>n_samples\<close>, so the three arrays are
  the labels of all samples and the classifier's results of all batches in order. For 257
  samples and batch size 256 the slices are 0 to 256 and 256 to 257 (upper bounds
  excluded).
\<close>

theorem test_arrays_offsets:
  assumes bs: "0 < bs"
    and cl: "\<forall>ims. length (fst (classify ims)) = length ims \<and>
                   length (snd (classify ims)) = length ims"
  shows "\<exists>a. test_arrays classify bs ds = Inr a \<and>
           labels a = map snd ds \<and>
           preds a = concat (map (\<lambda>b. fst (classify (map fst b))) (batches (nat bs) ds)) \<and>
           confs a = concat (map (\<lambda>b. snd (classify (map fst b))) (batches (nat bs) ds)) \<and>
           length (preds a) = length ds \<and> length (confs a) = length ds \<and>
           slices a = map (batch_range (nat bs) (length ds)) [0..<length (batches (nat bs) ds)] \<and>
           (\<forall>i < length (slices a).
              take (snd (slices a ! i) - fst (slices a ! i)) (drop (fst (slices a ! i)) (labels a))
                = map snd (batches (nat bs) ds ! i) \<and>
              take (snd (slices a ! i) - fst (slices a ! i)) (drop (fst (slices a ! i)) (preds a))
                = fst (classify (map fst (batches (nat bs) ds ! i))) \<and>
              take (snd (slices a ! i) - fst (slices a ! i)) (drop (fst (slices a ! i)) (confs a))
                = snd (classify (map fst (batches (nat bs) ds ! i)))) \<and>
           (\<forall>(i, j) \<in> set (slices a). i < j \<and> j \<le> length ds) \<and>
           (\<forall>i. Suc i < length (slices a) \<longrightarrow> snd (slices a ! i) = fst (slices a ! Suc i)) \<and>
           (\<Union>(i, j) \<in> set (slices a). {i..<j}) = {0..<length ds} \<and>
           (bs = 256 \<and> length ds = 257 \<longrightarrow> slices a = [(0, 256), (256, 257)])"
proof -
  from bs have b: "0 < nat bs" by simp
  let ?B = "batches (nat bs) ds"
  let ?sl = "map (batch_range (nat bs) (length ds)) [0..<length ?B]"
  let ?P = "concat (map (\<lambda>b. fst (classify (map fst b))) ?B)"
  let ?C = "concat (map (\<lambda>b. snd (classify (map fst b))) ?B)"
  let ?a = "\<lparr>labels = map snd ds, preds = ?P, confs = ?C, slices = ?sl\<rparr>"
  have r: "test_arrays classify bs ds = Inr ?a"
    by (rule test_arrays_result [OF bs cl])
  have lp: "length ?P = length ds"
    using length_concat_classify [OF b, of "\<lambda>ims. fst (classify ims)" ds] cl by simp
  have lc: "length ?C = length ds"
    using length_concat_classify [OF b, of "\<lambda>ims. snd (classify ims)" ds] cl by simp
  have seg: "\<forall>i < length ?sl.
      take (snd (?sl ! i) - fst (?sl ! i)) (drop (fst (?sl ! i)) (map snd ds))
        = map snd (?B ! i) \<and>
      take (snd (?sl ! i) - fst (?sl ! i)) (drop (fst (?sl ! i)) ?P)
        = fst (classify (map fst (?B ! i))) \<and>
      take (snd (?sl ! i) - fst (?sl ! i)) (drop (fst (?sl ! i)) ?C)
        = snd (classify (map fst (?B ! i)))"
  proof (intro allI impI)
    fix i assume "i < length ?sl"
    then have i: "i < length ?B" by simp
    then have sl: "?sl ! i = (i * nat bs, min (i * nat bs + nat bs) (length ds))"
      by (simp add: batch_range_def)
    have gl: "\<forall>b :: ('a \<times> int) list. length (map snd b) = length b" by simp
    have gp: "\<forall>b :: ('a \<times> int) list. length (fst (classify (map fst b))) = length b"
      using cl by simp
    have gc: "\<forall>b :: ('a \<times> int) list. length (snd (classify (map fst b))) = length b"
      using cl by simp
    have l: "map snd ds = concat (map (map snd) ?B)"
      using concat_map_batches [OF b, of snd ds] by simp
    have 1: "take (snd (?sl ! i) - fst (?sl ! i)) (drop (fst (?sl ! i)) (map snd ds))
               = map snd (?B ! i)"
      unfolding sl fst_conv snd_conv l
      by (rule concat_batches_segment [OF b gl i])
    have 2: "take (snd (?sl ! i) - fst (?sl ! i)) (drop (fst (?sl ! i)) ?P)
               = fst (classify (map fst (?B ! i)))"
      unfolding sl fst_conv snd_conv
      by (rule concat_batches_segment [OF b gp i])
    have 3: "take (snd (?sl ! i) - fst (?sl ! i)) (drop (fst (?sl ! i)) ?C)
               = snd (classify (map fst (?B ! i)))"
      unfolding sl fst_conv snd_conv
      by (rule concat_batches_segment [OF b gc i])
    from 1 2 3
    show "take (snd (?sl ! i) - fst (?sl ! i)) (drop (fst (?sl ! i)) (map snd ds))
        = map snd (?B ! i) \<and>
      take (snd (?sl ! i) - fst (?sl ! i)) (drop (fst (?sl ! i)) ?P)
        = fst (classify (map fst (?B ! i))) \<and>
      take (snd (?sl ! i) - fst (?sl ! i)) (drop (fst (?sl ! i)) ?C)
        = snd (classify (map fst (?B ! i)))" by blast
  qed
  have inb: "\<forall>(i, j) \<in> set ?sl. i < j \<and> j \<le> length ds"
    using batch_range_inside [OF b, of _ ds] b by (auto simp: batch_range_def)
  have con: "\<forall>i. Suc i < length ?sl \<longrightarrow> snd (?sl ! i) = fst (?sl ! Suc i)"
    using slices_contiguous [OF b, of _ ds] by simp
  have cov: "(\<Union>(i, j) \<in> set ?sl. {i..<j}) = {0..<length ds}"
    by (rule slices_cover [OF b])
  have ex: "bs = 256 \<and> length ds = 257 \<longrightarrow> ?sl = [(0, 256), (256, 257)]"
  proof
    assume h: "bs = 256 \<and> length ds = 257"
    then have "length (batches (nat bs) ds) = 2" using batches_257 [of ds] by simp
    moreover have "[0..<2] = [0, Suc 0]" by (simp add: upt_conv_Cons)
    ultimately show "?sl = [(0, 256), (256, 257)]"
      using h by (simp add: batch_range_def)
  qed
  show ?thesis
    apply (rule exI [of _ ?a])
    apply (insert r lp lc seg inb con cov ex)
    apply (simp only: arrays.select_convs)
    done
qed

theorem test_arrays_offsets_witness:
  "(0::int) < 256 \<and>
   (\<forall>ims :: nat list. length (fst (map int ims, map real ims)) = length ims \<and>
          length (snd (map int ims, map real ims)) = length ims) \<and>
   (\<exists>a. test_arrays (\<lambda>ims :: nat list. (map int ims, map real ims)) 256
           (replicate 257 (3, 5)) = Inr a \<and>
        labels a = replicate 257 5 \<and>
        preds a = replicate 257 3 \<and>
        confs a = replicate 257 3 \<and>
        slices a = [(0, 256), (256, 257)] \<and>
        (\<Union>(i, j) \<in> set (slices a). {i..<j}) = {0..<257})"
proof -
  let ?ds = "replicate 257 (3::nat, 5::int)"
  let ?cl = "\<lambda>ims :: nat list. (map int ims, map real ims)"
  have b: "(0::int) < 256" by simp
  have h: "\<forall>ims :: nat list. length (fst (?cl ims)) = length ims \<and>
                            length (snd (?cl ims)) = length ims" by simp
  have len: "length ?ds = 257" by (simp only: length_replicate)
  have l: "map snd ?ds = replicate 257 5" by (simp only: map_replicate snd_conv)
  have p: "concat (map (\<lambda>b. fst (?cl (map fst b))) (batches (nat 256) ?ds))
             = replicate 257 3"
    using concat_map_batches [of 256 "int \<circ> fst" ?ds]
    by (simp add: comp_def)
  have c: "concat (map (\<lambda>b. snd (?cl (map fst b))) (batches (nat 256) ?ds))
             = replicate 257 3"
    using concat_map_batches [of 256 "real \<circ> fst" ?ds]
    by (simp add: comp_def)
  from test_arrays_offsets [OF b h, of ?ds]
  obtain a where a: "test_arrays ?cl 256 ?ds = Inr a"
    "labels a = map snd ?ds"
    "preds a = concat (map (\<lambda>b. fst (?cl (map fst b))) (batches (nat 256) ?ds))"
    "confs a = concat (map (\<lambda>b. snd (?cl (map fst b))) (batches (nat 256) ?ds))"
    "(\<Union>(i, j) \<in> set (slices a). {i..<j}) = {0..<length ?ds}"
    "(256::int) = 256 \<and> length ?ds = 257 \<longrightarrow> slices a = [(0, 256), (256, 257)]"
    by blast
  from a(6) len have s: "slices a = [(0, 256), (256, 257)]" by blast
  have "test_arrays ?cl 256 ?ds = Inr a \<and>
        labels a = replicate 257 5 \<and> preds a = replicate 257 3 \<and> confs a = replicate 257 3 \<and>
        slices a = [(0, 256), (256, 257)] \<and>
        (\<Union>(i, j) \<in> set (slices a). {i..<j}) = {0..<257}"
    using a(1) a(2) [unfolded l] a(3) [unfolded p] a(4) [unfolded c] s a(5) [unfolded len]
    by blast
  then have "\<exists>a. test_arrays ?cl 256 ?ds = Inr a \<and>
        labels a = replicate 257 5 \<and> preds a = replicate 257 3 \<and> confs a = replicate 257 3 \<and>
        slices a = [(0, 256), (256, 257)] \<and>
        (\<Union>(i, j) \<in> set (slices a). {i..<j}) = {0..<257}" ..
  with b h show ?thesis by blast
qed

section \<open>Trainer.train\<close>

lemma epoch_body_eval:
  "0 < batch_size (trainer st) \<Longrightarrow> test_freq (trainer st) = 1 \<Longrightarrow>
   epoch_body fit accuracy i st =
     (let t1 = (trainer st)\<lparr>model := fit (model (trainer st)),
                              events := events (trainer st) @ [Ev_train_epoch]\<rparr>;
          acc = accuracy (model t1) 0;
          t2 = t1\<lparr>events := events t1 @ [Ev_test Default_transforms (batch_size t1)]\<rparr>;
          t3 = classifier_save (Epoch_path i) acc t2;
          st1 = (if acc > acc_max st
                 then st\<lparr>trainer := classifier_save Best_path acc t3,
                         acc_max := acc, best_epoch := i\<rparr>
                 else st\<lparr>trainer := t3\<rparr>);
          s' = (stopper st1)\<lparr>cur_val := Some acc,
                  value_max := max (value_max (stopper st1)) acc,
                  num_fails := (if max (value_max (stopper st1)) acc - acc \<ge> delta (stopper st1)
                                then num_fails (stopper st1) + 1 else 0)\<rparr>
      in Inr (st1\<lparr>stopper := s',
                 stopped_at := (if check_criterion s' then Some i else None)\<rparr>))"
  by (simp add: epoch_body_def train_epoch_def test_def loader_batch_size_def Let_def update_Inr)

lemma upt_0_5: "[0..<5] = [0, 1, 2, 3, 4]"
  by (simp add: upt_conv_Cons)

lemma upt_0_3: "[0..<3] = [0, 1, 2]"
  by (simp add: upt_conv_Cons)

lemma upt_0_2: "[0..<2] = [0, 1]"
  by (simp add: upt_conv_Cons)

text \<open>
  Claim C1, evaluated on the code. With \<open>n_max_epoch = 5\<close>, \<open>test_freq = 1\<close>, the accuracies
  0.60, 0.62, 0.61, 0.60, 0.59, threshold 3 and delta 0, the loop is left by the criterion
  at epoch 2, not at epoch 4: with delta 0 each of the first three observations is counted
  as a failure, the two that set a new maximum included. \<open>train\<close> loads the best checkpoint
  (written at epoch 1), evaluates once with augmentation and returns the larger of 0.62 and
  that second metric.
\<close>

theorem scenario_stops_at_epoch_2:
  "\<exists>st. train Suc (scenario_acc tta) (fresh_trainer 256 1) 5 8 (new_stopper 3 0)
          = Inr (max (62/100) tta, st) \<and>
        Stopper_init 3 0 = Inr (new_stopper 3 0) \<and>
        stopped_at st = Some 2 \<and>
        acc_max st = 62/100 \<and> best_epoch st = 1 \<and>
        num_fails (stopper st) = 3 \<and>
        model (trainer st) = 2 \<and>
        events (trainer st)
          = [Ev_train_epoch, Ev_test Default_transforms 256,
             Ev_save (Epoch_path 0) (60/100), Ev_save Best_path (60/100),
             Ev_train_epoch, Ev_test Default_transforms 256,
             Ev_save (Epoch_path 1) (62/100), Ev_save Best_path (62/100),
             Ev_train_epoch, Ev_test Default_transforms 256,
             Ev_save (Epoch_path 2) (61/100),
             Ev_load Best_path, Ev_test (Test_transforms 8) 32]"
  apply (simp add: train_def train_init_def upt_0_5 fresh_trainer_def new_stopper_def
      Stopper_init_def)
  apply (simp add: epoch_body_eval scenario_acc_def Let_def classifier_save_def
      check_criterion_def finalize_def classifier_load_def test_def loader_batch_size_def
      py_int_def)
  done

text \<open>
  The same run with a small positive delta (0.001) is left at epoch 4, after the three
  observations 0.61, 0.60, 0.59 below the maximum 0.62.
\<close>

lemma scenario_positive_delta_stops_at_epoch_4:
  "\<exists>st. train Suc (scenario_acc tta) (fresh_trainer 256 1) 5 8 (new_stopper 3 (1/1000))
          = Inr (max (62/100) tta, st) \<and>
        stopped_at st = Some 4 \<and> acc_max st = 62/100 \<and> best_epoch st = 1 \<and>
        num_fails (stopper st) = 3 \<and> model (trainer st) = 2"
  apply (simp add: train_def train_init_def upt_0_5 fresh_trainer_def new_stopper_def)
  apply (simp add: epoch_body_eval scenario_acc_def Let_def classifier_save_def
      check_criterion_def finalize_def classifier_load_def test_def loader_batch_size_def
      py_int_def)
  done

subsection \<open>The best checkpoint\<close>

lemma epoch_accs_append: "epoch_accs (xs @ ys) = epoch_accs xs @ epoch_accs ys"
  by (induction xs rule: epoch_accs.induct) simp_all

lemma Max_insert0_snoc:
  "Max (insert 0 (set (xs @ [a]))) = max (Max (insert (0::real) (set xs))) a"
proof -
  have "insert 0 (set (xs @ [a])) = insert a (insert 0 (set xs))" by auto
  then show ?thesis by (simp add: max.commute)
qed

lemma epoch_body_effect:
  assumes "epoch_body fit accuracy i st = Inr st'"
  shows "(acc_max st' = acc_max st \<and>
          epoch_accs (events (trainer st')) = epoch_accs (events (trainer st)) \<and>
          files (trainer st') Best_path = files (trainer st) Best_path) \<or>
         (\<exists>acc. epoch_accs (events (trainer st')) = epoch_accs (events (trainer st)) @ [acc] \<and>
                acc_max st' = max (acc_max st) acc \<and>
                (if acc > acc_max st
                 then \<exists>c. files (trainer st') Best_path = Some c \<and> ck_acc c = acc
                 else files (trainer st') Best_path = files (trainer st) Best_path))"
proof -
  from assms obtain t1 where t1: "train_epoch fit (trainer st) = Inr t1"
    by (auto simp: epoch_body_def split: sum.splits)
  then have e1: "events t1 = events (trainer st) @ [Ev_train_epoch]"
    and f1: "files t1 = files (trainer st)"
    by (auto simp: train_epoch_def split: if_splits)
  from assms t1 have nz: "test_freq t1 \<noteq> 0"
    by (auto simp: epoch_body_def split: if_splits)
  show ?thesis
  proof (cases "int i mod test_freq t1 = 0")
    case False
    with assms t1 nz have "st' = st\<lparr>trainer := t1\<rparr>"
      by (simp add: epoch_body_def)
    then show ?thesis using e1 f1 by (simp add: epoch_accs_append)
  next
    case True
    from assms t1 nz True obtain acc t2 where t2: "test accuracy t1 0 = Inr (acc, t2)"
      by (auto simp: epoch_body_def split: sum.splits)
    then obtain bs where e2: "events t2 = events t1 @ [Ev_test Default_transforms bs]"
      and f2: "files t2 = files t1"
      by (auto simp: test_def Let_def split: if_splits)
    let ?t3 = "classifier_save (Epoch_path i) acc t2"
    have e3: "epoch_accs (events ?t3) = epoch_accs (events (trainer st)) @ [acc]"
      using e1 e2 by (simp add: classifier_save_def epoch_accs_append)
    have f3: "files ?t3 Best_path = files (trainer st) Best_path"
      using f1 f2 by (simp add: classifier_save_def)
    let ?st1 = "(if acc > acc_max st
                 then st\<lparr>trainer := classifier_save Best_path acc ?t3,
                         acc_max := acc, best_epoch := i\<rparr>
                 else st\<lparr>trainer := ?t3\<rparr>)"
    from assms t1 nz True t2
    have r: "(case update (stopper ?st1) acc of
                Inl e \<Rightarrow> Inl e
              | Inr s' \<Rightarrow>
                  Inr (?st1\<lparr>stopper := s',
                            stopped_at := (if check_criterion s' then Some i else None)\<rparr>))
             = Inr st'"
      by (simp add: epoch_body_def Let_def)
    then obtain s' where
      st': "st' = ?st1\<lparr>stopper := s', stopped_at := (if check_criterion s' then Some i else None)\<rparr>"
      by (auto split: sum.splits)
    show ?thesis
    proof (cases "acc > acc_max st")
      case True
      have "epoch_accs (events (trainer st')) = epoch_accs (events (trainer st)) @ [acc]"
        using st' True e3 by (simp add: classifier_save_def epoch_accs_append)
      moreover have "acc_max st' = max (acc_max st) acc"
        using st' True by (simp add: max_def)
      moreover have "\<exists>c. files (trainer st') Best_path = Some c \<and> ck_acc c = acc"
        using st' True by (simp add: classifier_save_def)
      ultimately show ?thesis using True by auto
    next
      case False
      have "epoch_accs (events (trainer st')) = epoch_accs (events (trainer st)) @ [acc]"
        using st' False e3 by simp
      moreover have "acc_max st' = max (acc_max st) acc"
        using st' False by (simp add: max_def)
      moreover have "files (trainer st') Best_path = files (trainer st) Best_path"
        using st' False f3 by simp
      ultimately show ?thesis using False by auto
    qed
  qed
qed

lemma epoch_body_best_inv:
  assumes b: "epoch_body fit accuracy i st = Inr st'" and inv: "best_inv st"
  shows "best_inv st'"
proof -
  from epoch_body_effect [OF b]
  consider
    (skip) "acc_max st' = acc_max st"
      "epoch_accs (events (trainer st')) = epoch_accs (events (trainer st))"
      "files (trainer st') Best_path = files (trainer st) Best_path"
  | (eval) acc where
      "epoch_accs (events (trainer st')) = epoch_accs (events (trainer st)) @ [acc]"
      "acc_max st' = max (acc_max st) acc"
      "if acc > acc_max st
       then \<exists>c. files (trainer st') Best_path = Some c \<and> ck_acc c = acc
       else files (trainer st') Best_path = files (trainer st) Best_path"
    by blast
  then show ?thesis
  proof cases
    case skip
    from inv show ?thesis unfolding best_inv_def skip(1) skip(2) skip(3) .
  next
    case eval
    from inv have m: "acc_max st = Max (insert 0 (set (epoch_accs (events (trainer st)))))"
      and bst: "0 < acc_max st \<longrightarrow>
                  (\<exists>c. files (trainer st) Best_path = Some c \<and> ck_acc c = acc_max st)"
      unfolding best_inv_def by blast+
    have m': "acc_max st' = Max (insert 0 (set (epoch_accs (events (trainer st')))))"
      unfolding eval(1) eval(2) Max_insert0_snoc m ..
    have b': "0 < acc_max st' \<longrightarrow>
                (\<exists>c. files (trainer st') Best_path = Some c \<and> ck_acc c = acc_max st')"
    proof (cases "acc > acc_max st")
      case True
      with eval(3) obtain c where "files (trainer st') Best_path = Some c" "ck_acc c = acc"
        by auto
      moreover from True eval(2) have "acc_max st' = acc" by (simp add: max_def)
      ultimately show ?thesis by simp
    next
      case False
      with eval(3) have f: "files (trainer st') Best_path = files (trainer st) Best_path"
        by simp
      from False eval(2) have "acc_max st' = acc_max st" by (simp add: max_def)
      with f bst show ?thesis by simp
    qed
    from m' b' show ?thesis unfolding best_inv_def by blast
  qed
qed

lemma train_loop_best_inv:
  "train_loop fit accuracy js st = Inr st' \<Longrightarrow> best_inv st \<Longrightarrow> best_inv st'"
proof (induction js arbitrary: st)
  case Nil
  then show ?case by simp
next
  case (Cons j js)
  from Cons.prems(1) obtain st1 where b: "epoch_body fit accuracy j st = Inr st1"
    and r: "(if stopped_at st1 \<noteq> None then Inr st1 else train_loop fit accuracy js st1) = Inr st'"
    by (auto split: sum.splits)
  from epoch_body_best_inv [OF b Cons.prems(2)] have i1: "best_inv st1" .
  show ?case
  proof (cases "stopped_at st1 \<noteq> None")
    case True
    with r i1 show ?thesis by simp
  next
    case False
    with r have "train_loop fit accuracy js st1 = Inr st'" by simp
    from Cons.IH [OF this i1] show ?thesis .
  qed
qed

lemma best_checkpoint_is_max:
  assumes loop: "train_loop fit accuracy js (train_init t s) = Inr st"
    and fresh: "events t = []"
    and pos: "\<exists>a \<in> set (epoch_accs (events (trainer st))). 0 < a"
  shows "\<exists>c. files (trainer st) Best_path = Some c \<and>
             ck_acc c = Max (set (epoch_accs (events (trainer st)))) \<and>
             acc_max st = ck_acc c"
proof -
  have "best_inv (train_init t s)"
    using fresh by (simp add: best_inv_def train_init_def)
  from train_loop_best_inv [OF loop this] have inv: "best_inv st" .
  let ?A = "set (epoch_accs (events (trainer st)))"
  from pos obtain a where a: "a \<in> ?A" "0 < a" by blast
  from a(1) have ne: "?A \<noteq> {}" by auto
  have "a \<le> Max ?A" using a(1) by simp
  with a(2) have "0 \<le> Max ?A" by linarith
  then have m: "Max (insert 0 ?A) = Max ?A" using ne by (simp add: max_def)
  from inv m have am: "acc_max st = Max ?A" by (simp add: best_inv_def)
  with \<open>a \<le> Max ?A\<close> a(2) have "0 < acc_max st" by linarith
  with inv am show ?thesis by (auto simp: best_inv_def)
qed

text \<open>
  Claim C5, evaluated on the code where every evaluated metric is 0. Three epochs are
  evaluated and three per-epoch checkpoints with metric 0 are written, but no best
  checkpoint: \<^verbatim>\<open>acc > acc_max\<close> never holds against the initial 0. The maximum of the
  evaluated metrics, 0, is stored in no best checkpoint, and \<open>train\<close> fails when it loads
  the best checkpoint.
\<close>

theorem zero_accuracy_no_best_checkpoint:
  "\<exists>st. train_loop Suc (\<lambda>p n_tta. 0) [0..<nat 3]
           (train_init (fresh_trainer 256 1) (new_stopper 15 (5/1000))) = Inr st \<and>
        stopped_at st = None \<and>
        files (trainer st) (Epoch_path 0) = Some \<lparr>ck_params = 1, ck_acc = 0\<rparr> \<and>
        files (trainer st) (Epoch_path 1) = Some \<lparr>ck_params = 2, ck_acc = 0\<rparr> \<and>
        files (trainer st) (Epoch_path 2) = Some \<lparr>ck_params = 3, ck_acc = 0\<rparr> \<and>
        epoch_accs (events (trainer st)) = [0, 0, 0] \<and>
        files (trainer st) Best_path = None \<and>
        train Suc (\<lambda>p n_tta. 0) (fresh_trainer 256 1) 3 8 (new_stopper 15 (5/1000))
          = Inl FileNotFoundError"
  apply (simp add: train_def train_init_def upt_0_3 fresh_trainer_def new_stopper_def)
  apply (simp add: epoch_body_eval Let_def classifier_save_def
      check_criterion_def finalize_def classifier_load_def)
  done

subsection \<open>After the loop\<close>

lemma train_loop_acc_max:
  assumes loop: "train_loop fit accuracy js (train_init t s) = Inr st"
    and fresh: "events t = []"
    and pos: "0 < acc_max st"
  shows "\<exists>c. files (trainer st) Best_path = Some c \<and> ck_acc c = acc_max st \<and>
             acc_max st = Max (set (epoch_accs (events (trainer st))))"
proof -
  have "best_inv (train_init t s)"
    using fresh by (simp add: best_inv_def train_init_def)
  from train_loop_best_inv [OF loop this] have inv: "best_inv st" .
  let ?A = "set (epoch_accs (events (trainer st)))"
  from inv have m: "acc_max st = Max (insert 0 ?A)"
    and b: "0 < acc_max st \<longrightarrow> (\<exists>c. files (trainer st) Best_path = Some c \<and> ck_acc c = acc_max st)"
    unfolding best_inv_def by blast+
  have ne: "?A \<noteq> {}"
  proof
    assume "?A = {}"
    with m have "acc_max st = 0" by simp
    with pos show False by simp
  qed
  then have "Max (insert 0 ?A) = max 0 (Max ?A)" by simp
  with m pos have "acc_max st = Max ?A" by (simp add: max_def split: if_splits)
  with b pos show ?thesis by blast
qed

text \<open>
  Claim C6, as amended. Let the loop of \<open>train\<close>, started in a fresh run, have ended, by
  the criterion or by running out of epochs, with some evaluated metric above 0, and let
  the batch size that \<open>n_tta\<close> gives the loader be positive. Then \<open>train\<close> returns. The
  best checkpoint exists and stores \<^verbatim>\<open>acc_max\<close>, the largest metric evaluated; \<open>train\<close>
  loads it, runs exactly one evaluation pass on the parameters of that checkpoint, with
  the test-time transforms of \<open>n_tta\<close> views when \<open>n_tta\<close> is not 0 and with the default
  transforms, without augmentation, when \<open>n_tta\<close> is 0, and returns the larger of
  \<^verbatim>\<open>acc_max\<close> and the metric of that pass.
\<close>

theorem train_finalize:
  assumes loop: "train_loop fit accuracy [0..<nat n_max_epoch] (train_init t s) = Inr st"
    and fresh: "events t = []"
    and pos: "0 < acc_max st"
    and bs: "0 < loader_batch_size (batch_size (trainer st)) n_tta"
  shows "\<exists>c st'. files (trainer st) Best_path = Some c \<and>
              ck_acc c = acc_max st \<and>
              acc_max st = Max (set (epoch_accs (events (trainer st)))) \<and>
              train fit accuracy t n_max_epoch n_tta s
                 = Inr (max (acc_max st) (accuracy (ck_params c) n_tta), st') \<and>
              model (trainer st') = ck_params c \<and>
              events (trainer st')
                = events (trainer st)
                  @ [Ev_load Best_path,
                     Ev_test (if n_tta \<noteq> 0 then Test_transforms n_tta else Default_transforms)
                       (loader_batch_size (batch_size (trainer st)) n_tta)]"
proof -
  from train_loop_acc_max [OF loop fresh pos]
  obtain c where c: "files (trainer st) Best_path = Some c" "ck_acc c = acc_max st"
    "acc_max st = Max (set (epoch_accs (events (trainer st))))" by blast
  let ?t2 = "(trainer st)\<lparr>model := ck_params c,
               events := events (trainer st)
                  @ [Ev_load Best_path,
                     Ev_test (if n_tta \<noteq> 0 then Test_transforms n_tta else Default_transforms)
                       (loader_batch_size (batch_size (trainer st)) n_tta)]\<rparr>"
  have "train fit accuracy t n_max_epoch n_tta s
          = Inr (max (acc_max st) (accuracy (ck_params c) n_tta), st\<lparr>trainer := ?t2\<rparr>)"
    using loop c(1) bs
    by (simp add: train_def finalize_def classifier_load_def test_def Let_def)
  with c show ?thesis by (intro exI [of _ c] exI [of _ "st\<lparr>trainer := ?t2\<rparr>"]) simp
qed

lemma two_epochs_loop:
  "train_loop Suc (scenario_acc (63/100)) [0..<nat 2]
     (train_init (fresh_trainer 256 1) (new_stopper 3 (1/100)))
   = Inr \<lparr>trainer =
            \<lparr>model = 2, batch_size = 256, test_freq = 1,
             files = [Epoch_path 0 \<mapsto> \<lparr>ck_params = 1, ck_acc = 60/100\<rparr>,
                      Epoch_path 1 \<mapsto> \<lparr>ck_params = 2, ck_acc = 62/100\<rparr>,
                      Best_path \<mapsto> \<lparr>ck_params = 2, ck_acc = 62/100\<rparr>],
             events = [Ev_train_epoch, Ev_test Default_transforms 256,
                       Ev_save (Epoch_path 0) (60/100), Ev_save Best_path (60/100),
                       Ev_train_epoch, Ev_test Default_transforms 256,
                       Ev_save (Epoch_path 1) (62/100), Ev_save Best_path (62/100)]\<rparr>,
          stopper = \<lparr>n_observation = 3, delta = 1/100, cur_val = Some (62/100),
                     value_max = 62/100, num_fails = 0\<rparr>,
          acc_max = 62/100, best_epoch = 1, stopped_at = None\<rparr>"
  apply (simp add: train_init_def upt_0_2 fresh_trainer_def new_stopper_def)
  apply (simp add: epoch_body_eval scenario_acc_def Let_def classifier_save_def
      check_criterion_def)
  apply (auto simp: fun_eq_iff)
  done

theorem train_finalize_witness:
  "\<exists>st. train_loop Suc (scenario_acc (63/100)) [0..<nat 2]
             (train_init (fresh_trainer 256 1) (new_stopper 3 (1/100))) = Inr st \<and>
        events (fresh_trainer 256 1) = [] \<and>
        stopped_at st = None \<and> acc_max st = 62/100 \<and> 0 < acc_max st \<and>
        (8::int) \<noteq> 0 \<and>
        0 < loader_batch_size (batch_size (trainer st)) 8 \<and>
        epoch_accs (events (trainer st)) = [60/100, 62/100] \<and>
        (\<exists>c st'. files (trainer st) Best_path = Some c \<and> ck_acc c = 62/100 \<and>
                 train Suc (scenario_acc (63/100)) (fresh_trainer 256 1) 2 8
                    (new_stopper 3 (1/100)) = Inr (63/100, st') \<and>
                 model (trainer st') = 2 \<and>
                 events (trainer st')
                   = events (trainer st)
                     @ [Ev_load Best_path, Ev_test (Test_transforms 8) 32])"
proof -
  let ?c = "\<lparr>ck_params = 2 :: nat, ck_acc = 62/100\<rparr>"
  let ?loop = "train_loop Suc (scenario_acc (63/100)) [0..<nat 2]
                 (train_init (fresh_trainer 256 1) (new_stopper 3 (1/100)))"
  obtain st where l: "?loop = Inr st"
    and s: "stopped_at st = None" "acc_max st = 62/100"
    and f: "files (trainer st) Best_path = Some ?c"
    and b: "batch_size (trainer st) = 256"
    and e: "epoch_accs (events (trainer st)) = [60/100, 62/100]"
    unfolding two_epochs_loop by simp
  have fr: "events (fresh_trainer 256 1) = []" by (simp add: fresh_trainer_def)
  have v: "loader_batch_size 256 8 = 32"
    by (simp add: loader_batch_size_def py_int_def)
  have n: "(8::int) \<noteq> 0" by simp
  have p: "0 < loader_batch_size (batch_size (trainer st)) 8"
    unfolding b v by simp
  have ps: "0 < acc_max st" unfolding s by simp
  from train_finalize [OF l fr ps p]
  obtain c st' where
    "files (trainer st) Best_path = Some c" "ck_acc c = 62/100"
    "train Suc (scenario_acc (63/100)) (fresh_trainer 256 1) 2 8 (new_stopper 3 (1/100))
       = Inr (63/100, st')"
    "model (trainer st') = 2"
    "events (trainer st')
       = events (trainer st) @ [Ev_load Best_path, Ev_test (Test_transforms 8) 32]"
    unfolding b v s f by (auto simp: scenario_acc_def)
  with l s fr n p e ps show ?thesis by blast
qed

text \<open>
  Claim C6 as stated fails for \<open>n_tta = 0\<close>: after two epochs with the metrics 0.60 and
  0.62 the loop ends by running out of epochs, the best checkpoint is loaded, and the one
  final pass runs with the default transforms, without augmentation; \<open>train\<close> returns 0.62.
\<close>

theorem train_final_pass_counterexample:
  "map_sum id fst
     (train Suc (scenario_acc (63/100)) (fresh_trainer 256 1) 2 0 (new_stopper 3 (1/100)))
     = Inr (62/100) \<and>
   map_sum id (events \<circ> trainer \<circ> snd)
     (train Suc (scenario_acc (63/100)) (fresh_trainer 256 1) 2 0 (new_stopper 3 (1/100)))
     = Inr [Ev_train_epoch, Ev_test Default_transforms 256,
            Ev_save (Epoch_path 0) (60/100), Ev_save Best_path (60/100),
            Ev_train_epoch, Ev_test Default_transforms 256,
            Ev_save (Epoch_path 1) (62/100), Ev_save Best_path (62/100),
            Ev_load Best_path, Ev_test Default_transforms 256]"
  apply (simp add: train_def train_init_def upt_0_2 fresh_trainer_def new_stopper_def)
  apply (simp add: epoch_body_eval scenario_acc_def Let_def classifier_save_def
      check_criterion_def finalize_def classifier_load_def test_def loader_batch_size_def)
  done

text \<open>
  Where \<open>n_tta\<close> exceeds the configured batch size the loader's batch size is 0, which the
  loader refuses: the final pass raises \<^verbatim>\<open>ValueError\<close>. With no epoch at all there is no
  best checkpoint to load.
\<close>

lemma train_small_batch_fails:
  "train Suc (scenario_acc (63/100)) (fresh_trainer 4 1) 2 8 (new_stopper 3 (1/100))
     = Inl ValueError"
  apply (simp add: train_def train_init_def upt_0_2 fresh_trainer_def new_stopper_def)
  apply (simp add: epoch_body_eval scenario_acc_def Let_def classifier_save_def
      check_criterion_def finalize_def classifier_load_def test_def loader_batch_size_def
      py_int_def)
  done

lemma train_no_epochs_fails:
  "train fit accuracy (fresh_trainer 256 1) 0 8 (new_stopper 3 (1/100))
     = Inl FileNotFoundError"
  by (simp add: train_def train_init_def fresh_trainer_def finalize_def classifier_load_def)

end
